theory Spec2Isabelle
  imports Main "HOL-Library.Word"
begin

section \<open>The OTLP test sender \<^verbatim>\<open>acp-example/otel/otel-test-traces.py\<close>\<close>

text \<open>
  The script builds three OTLP JSON payloads (logs, metrics, traces) from one captured
  timestamp and freshly drawn identifiers, posts each of them to a local collector with a
  bounded retry loop, prints what happened and exits with a status code.

  Everything the script takes from outside is an explicit input of the model: the clock,
  the random sources and the answers of the network. Everything it does to the outside
  (printing, posting, sleeping) is recorded, in order, in a list of events.
\<close>

subsection \<open>Python values\<close>

text \<open>JSON documents: a \<^verbatim>\<open>dict\<close> literal keeps its keys in the order written.\<close>

datatype json =
    JStr string
  | JInt int
  | JArr "json list"
  | JObj "(string \<times> json) list"

text \<open>\<^verbatim>\<open>str(n)\<close> on an integer: decimal digits, with a minus sign for negative numbers.\<close>

definition digit_char :: "nat \<Rightarrow> char" where
  "digit_char d = ''0123456789'' ! d"

fun str_nat :: "nat \<Rightarrow> string" where
  "str_nat n = (if n < 10 then [digit_char n] else str_nat (n div 10) @ [digit_char (n mod 10)])"

declare str_nat.simps [simp del]

definition str :: "int \<Rightarrow> string" where
  "str i = (if i < 0 then CHR ''-'' # str_nat (nat (- i)) else str_nat (nat i))"

text \<open>\<^verbatim>\<open>bytes.hex()\<close>: two lowercase hexadecimal digits for each byte, high nibble first.\<close>

definition hex_char :: "nat \<Rightarrow> char" where
  "hex_char d = ''0123456789abcdef'' ! d"

definition hex_byte :: "8 word \<Rightarrow> string" where
  "hex_byte b = [hex_char (unat b div 16), hex_char (unat b mod 16)]"

definition hex :: "8 word list \<Rightarrow> string" where
  "hex bs = concat (map hex_byte bs)"

subsection \<open>The environment of one run\<close>

text \<open>
  A response of the collector, as \<^verbatim>\<open>requests\<close> hands it to the script: the status code,
  the reason phrase and URL (they appear in the message of \<^verbatim>\<open>raise_for_status\<close>) and the body.
\<close>

record response =
  status_code :: int
  reason :: string
  resp_url :: string
  resp_text :: string

text \<open>
  An exception, by the first \<^verbatim>\<open>except\<close> clause of \<^verbatim>\<open>send_telemetry\<close> whose class it is an
  instance of, together with \<^verbatim>\<open>str(e)\<close>. \<open>OtherException\<close> stands for every other
  exception (an \<^verbatim>\<open>Exception\<close> that is not a \<^verbatim>\<open>RequestException\<close>): no clause of the
  script catches it.
\<close>

datatype exception =
    ConnectionError string
  | Timeout string
  | RequestException string
  | OtherException string

datatype post_outcome = Returns response | Raises exception

record env =
  time_ns :: int
  rand_draw :: nat
  urandom_src :: "nat \<Rightarrow> 8 word"
  network :: "nat \<Rightarrow> post_outcome"

text \<open>
  \<^verbatim>\<open>random.randint(a, b)\<close> of the standard library: an integer of the closed range from
  \<open>a\<close> to \<open>b\<close>, picked by the generator's draw. The script calls it with \<open>0\<close> and \<open>100\<close>
  only, so the \<^verbatim>\<open>ValueError\<close> of an empty range does not arise.
\<close>

definition randint :: "int \<Rightarrow> int \<Rightarrow> nat \<Rightarrow> int" where
  "randint a b draw = a + int (draw mod nat (b - a + 1))"

text \<open>
  \<^verbatim>\<open>os.urandom(n)\<close>: the next \<open>n\<close> bytes of the operating system's random source,
  returned with what is left of the source.
\<close>

definition urandom :: "nat \<Rightarrow> (nat \<Rightarrow> 8 word) \<Rightarrow> 8 word list \<times> (nat \<Rightarrow> 8 word)" where
  "urandom n src = (map src [0..<n], \<lambda>i. src (n + i))"

subsection \<open>Module constants and payloads\<close>

definition MAX_RETRIES :: nat where
  "MAX_RETRIES = 3"

definition RETRY_DELAY :: nat where
  "RETRY_DELAY = 2"

definition current_time_ns :: "env \<Rightarrow> int" where
  "current_time_ns e = time_ns e"

definition logs_payload :: "env \<Rightarrow> json" where
  "logs_payload e =
     JObj [(''resourceLogs'', JArr [
       JObj [
         (''resource'', JObj [
           (''attributes'', JArr [
             JObj [(''key'', JStr ''service.name''),
                   (''value'', JObj [(''stringValue'', JStr ''curl-test-service'')])]])]),
         (''scopeLogs'', JArr [
           JObj [
             (''scope'', JObj [(''name'', JStr ''curl-test-scope'')]),
             (''logRecords'', JArr [
               JObj [
                 (''timeUnixNano'', JStr (str (current_time_ns e))),
                 (''severityNumber'', JInt 9),
                 (''severityText'', JStr ''INFO''),
                 (''body'', JObj [(''stringValue'', JStr ''Hello from test service!'')]),
                 (''attributes'', JArr [
                   JObj [(''key'', JStr ''service.name''),
                         (''value'', JObj [(''stringValue'', JStr ''curl-test-service'')])]])]])]])]])]"

definition metrics_payload :: "env \<Rightarrow> json" where
  "metrics_payload e =
     JObj [(''resourceMetrics'', JArr [
       JObj [
         (''resource'', JObj [
           (''attributes'', JArr [
             JObj [(''key'', JStr ''service.name''),
                   (''value'', JObj [(''stringValue'', JStr ''curl-test-service'')])]])]),
         (''scopeMetrics'', JArr [
           JObj [
             (''scope'', JObj [(''name'', JStr ''curl-test-scope'')]),
             (''metrics'', JArr [
               JObj [
                 (''name'', JStr ''curl.test.metric''),
                 (''description'', JStr ''Test metric''),
                 (''unit'', JStr ''1''),
                 (''gauge'', JObj [
                   (''dataPoints'', JArr [
                     JObj [
                       (''timeUnixNano'', JStr (str (current_time_ns e))),
                       (''asInt'', JInt (randint 0 100 (rand_draw e)))]])])]])]])]])]"

definition trace_id_hex :: "env \<Rightarrow> string" where
  "trace_id_hex e = hex (fst (urandom 16 (urandom_src e)))"

definition parent_span_id_hex :: "env \<Rightarrow> string" where
  "parent_span_id_hex e = hex (fst (urandom 8 (snd (urandom 16 (urandom_src e)))))"

definition child_span_id_hex :: "env \<Rightarrow> string" where
  "child_span_id_hex e =
     hex (fst (urandom 8 (snd (urandom 8 (snd (urandom 16 (urandom_src e)))))))"

definition trace_payload :: "env \<Rightarrow> json" where
  "trace_payload e =
     JObj [(''resourceSpans'', JArr [
       JObj [
         (''resource'', JObj [
           (''attributes'', JArr [
             JObj [(''key'', JStr ''service.name''),
                   (''value'', JObj [(''stringValue'', JStr ''python-random-service'')])]])]),
         (''scopeSpans'', JArr [
           JObj [
             (''scope'', JObj [(''name'', JStr ''python-random-scope'')]),
             (''spans'', JArr [
               JObj [
                 (''traceId'', JStr (trace_id_hex e)),
                 (''spanId'', JStr (parent_span_id_hex e)),
                 (''name'', JStr ''parent-operation''),
                 (''kind'', JStr ''SPAN_KIND_SERVER''),
                 (''startTimeUnixNano'', JStr (str (current_time_ns e))),
                 (''endTimeUnixNano'', JStr (str (current_time_ns e + 30000000000))),
                 (''attributes'', JArr [
                   JObj [(''key'', JStr ''operation.type''),
                         (''value'', JObj [(''stringValue'', JStr ''parent'')])]])],
               JObj [
                 (''traceId'', JStr (trace_id_hex e)),
                 (''spanId'', JStr (child_span_id_hex e)),
                 (''parentSpanId'', JStr (parent_span_id_hex e)),
                 (''name'', JStr ''child-operation''),
                 (''kind'', JStr ''SPAN_KIND_INTERNAL''),
                 (''startTimeUnixNano'', JStr (str (current_time_ns e + 5000000000))),
                 (''endTimeUnixNano'', JStr (str (current_time_ns e + 15000000000))),
                 (''attributes'', JArr [
                   JObj [(''key'', JStr ''operation.type''),
                         (''value'', JObj [(''stringValue'', JStr ''child'')])]])]])]])]])]"

definition url_base :: string where
  "url_base = ''http://localhost:4318/v1''"

definition headers :: "(string \<times> string) list" where
  "headers = [(''Content-Type'', ''application/json'')]"

subsection \<open>Effects\<close>

text \<open>
  What the script does to the outside world, in order: a line printed, a POST request
  (URL, headers, JSON body), a sleep of so many seconds.
\<close>

datatype event =
    Print string
  | Post string "(string \<times> string) list" json
  | Sleep nat

text \<open>
  The state threaded through the script: the answers the network will give (the \<open>k\<close>-th
  POST of the process gets \<open>net k\<close>), the number of POSTs made so far, the events so far,
  and the module variable \<^verbatim>\<open>success_count\<close>.
\<close>

record state =
  net :: "nat \<Rightarrow> post_outcome"
  posts :: nat
  events :: "event list"
  success_count :: nat

definition print :: "string \<Rightarrow> state \<Rightarrow> state" where
  "print line s = s\<lparr>events := events s @ [Print line]\<rparr>"

definition sleep :: "nat \<Rightarrow> state \<Rightarrow> state" where
  "sleep secs s = s\<lparr>events := events s @ [Sleep secs]\<rparr>"

definition requests_post ::
  "string \<Rightarrow> (string \<times> string) list \<Rightarrow> json \<Rightarrow> state \<Rightarrow> post_outcome \<times> state" where
  "requests_post url hdrs body s =
     (net s (posts s), s\<lparr>posts := posts s + 1, events := events s @ [Post url hdrs body]\<rparr>)"

text \<open>
  \<^verbatim>\<open>Response.raise_for_status()\<close> of \<^verbatim>\<open>requests\<close>: an \<^verbatim>\<open>HTTPError\<close> (a
  \<^verbatim>\<open>RequestException\<close>) for a status from 400 to 599, nothing otherwise; the script's
  comment reads "Raise exception for 4XX/5XX responses".
\<close>

definition raise_for_status :: "response \<Rightarrow> exception option" where
  "raise_for_status r =
     (if 400 \<le> status_code r \<and> status_code r < 500 then
        Some (RequestException
          (str (status_code r) @ '' Client Error: '' @ reason r @ '' for url: '' @ resp_url r))
      else if 500 \<le> status_code r \<and> status_code r < 600 then
        Some (RequestException
          (str (status_code r) @ '' Server Error: '' @ reason r @ '' for url: '' @ resp_url r))
      else None)"

subsection \<open>\<^verbatim>\<open>send_telemetry\<close>\<close>

text \<open>The second component of the returned tuple: the response, or the error message.\<close>

datatype result_value = Resp response | Msg string

text \<open>Lines 181 and 182, the body of the \<^verbatim>\<open>try\<close>: what it raises, or the response it got.\<close>

definition checked :: "post_outcome \<Rightarrow> exception + response" where
  "checked outcome =
     (case outcome of
        Raises e \<Rightarrow> Inl e
      | Returns r \<Rightarrow> (case raise_for_status r of Some e \<Rightarrow> Inl e | None \<Rightarrow> Inr r))"

text \<open>
  The three \<^verbatim>\<open>except\<close> clauses: the line printed for a caught exception, \<open>None\<close> for an
  exception that no clause catches.
\<close>

fun except_clause :: "string \<Rightarrow> string \<Rightarrow> exception \<Rightarrow> string option" where
  "except_clause url telemetry_type (ConnectionError m) =
     Some ((''Connection error: The OpenTelemetry endpoint at '' @ url @ '' is unavailable'')
           @ '': '' @ m)"
| "except_clause url telemetry_type (Timeout m) =
     Some ((''Timeout error: The request to '' @ url @ '' timed out'') @ '': '' @ m)"
| "except_clause url telemetry_type (RequestException m) =
     Some ((''Request error: Failed to send '' @ telemetry_type @ '' to '' @ url) @ '': '' @ m)"
| "except_clause url telemetry_type (OtherException m) = None"

text \<open>
  One iteration of the loop, for the given value of \<^verbatim>\<open>attempt\<close>. \<open>Some\<close> is the way out of
  the function (a \<^verbatim>\<open>return\<close>, or an exception that propagates), \<open>None\<close> goes on with the
  next iteration.
\<close>

definition send_attempt ::
  "string \<Rightarrow> json \<Rightarrow> string \<Rightarrow> nat \<Rightarrow> state \<Rightarrow>
     (exception + bool \<times> result_value) option \<times> state" where
  "send_attempt url payload telemetry_type attempt s =
     (let s1 = print (''Sending '' @ telemetry_type @ '' (attempt '' @ str (int attempt + 1)
                        @ ''/'' @ str (int MAX_RETRIES) @ '')...'') s;
          (outcome, s2) = requests_post url headers payload s1
      in case checked outcome of
           Inr response \<Rightarrow> (Some (Inr (True, Resp response)), s2)
         | Inl e \<Rightarrow>
             (case except_clause url telemetry_type e of
                None \<Rightarrow> (Some (Inl e), s2)
              | Some line \<Rightarrow>
                  (let s3 = print line s2
                   in if attempt < MAX_RETRIES - 1 then
                        (None, sleep RETRY_DELAY
                                 (print (''Retrying in '' @ str (int RETRY_DELAY) @ '' seconds...'') s3))
                      else (None, s3))))"

text \<open>The \<^verbatim>\<open>for\<close> loop over the values of \<^verbatim>\<open>range(MAX_RETRIES)\<close>.\<close>

fun send_loop ::
  "string \<Rightarrow> json \<Rightarrow> string \<Rightarrow> nat list \<Rightarrow> state \<Rightarrow>
     (exception + bool \<times> result_value) option \<times> state" where
  "send_loop url payload telemetry_type [] s = (None, s)"
| "send_loop url payload telemetry_type (attempt # rest) s =
     (case send_attempt url payload telemetry_type attempt s of
        (Some out, s') \<Rightarrow> (Some out, s')
      | (None, s') \<Rightarrow> send_loop url payload telemetry_type rest s')"

definition send_telemetry ::
  "string \<Rightarrow> json \<Rightarrow> string \<Rightarrow> state \<Rightarrow> (exception + bool \<times> result_value) \<times> state" where
  "send_telemetry endpoint payload telemetry_type s =
     (let url = url_base @ ''/'' @ endpoint
      in case send_loop url payload telemetry_type [0..<MAX_RETRIES] s of
           (Some out, s') \<Rightarrow> (out, s')
         | (None, s') \<Rightarrow>
             (Inr (False, Msg (''Failed to send '' @ telemetry_type @ '' after ''
                               @ str (int MAX_RETRIES) @ '' attempts'')), s'))"

subsection \<open>The main sequence\<close>

definition total_operations :: nat where
  "total_operations = 3"

text \<open>How the process ends: \<^verbatim>\<open>sys.exit(code)\<close>, or an exception that nothing caught.\<close>

datatype exit_status = Exit int | Traceback exception

text \<open>
  The exit code of the process: the argument of \<^verbatim>\<open>sys.exit\<close>, or 1 when the interpreter
  stops on an uncaught exception (it prints the traceback and exits with status 1).
\<close>

definition exit_code :: "exit_status \<Rightarrow> int" where
  "exit_code st = (case st of Exit code \<Rightarrow> code | Traceback x \<Rightarrow> 1)"

definition start :: "env \<Rightarrow> state" where
  "start e = \<lparr>net = network e, posts = 0, events = [], success_count = 0\<rparr>"

text \<open>\<^verbatim>\<open>{result}\<close> inside an f-string: the message itself, or the \<^verbatim>\<open>repr\<close> of a response.\<close>

definition show_result :: "result_value \<Rightarrow> string" where
  "show_result result =
     (case result of
        Msg m \<Rightarrow> m
      | Resp r \<Rightarrow> ''<Response ['' @ str (status_code r) @ '']>'')"

text \<open>
  The \<^verbatim>\<open>if success: ... else: ...\<close> block that follows each call of \<^verbatim>\<open>send_telemetry\<close>;
  the three blocks of the script differ in the label only (\<open>Logs\<close>, \<open>Metrics\<close>, \<open>Traces\<close>).
  Reading \<^verbatim>\<open>status_code\<close> from a string would raise \<^verbatim>\<open>AttributeError\<close>.
\<close>

definition report ::
  "string \<Rightarrow> bool \<times> result_value \<Rightarrow> state \<Rightarrow> (exception + unit) \<times> state" where
  "report label sr s =
     (case sr of (success, result) \<Rightarrow>
        if success then
          (case result of
             Resp response \<Rightarrow>
               (let s1 = print (label @ '' Status code: '' @ str (status_code response)) s;
                    s2 = print (label @ '' Response body: '' @ resp_text response) s1
                in (Inr (), s2\<lparr>success_count := success_count s2 + 1\<rparr>))
           | Msg m \<Rightarrow>
               (Inl (OtherException ''AttributeError: 'str' object has no attribute 'status_code' ''), s))
        else (Inr (), print (label @ '' Error: '' @ show_result result) s))"

text \<open>
  The three sends, one after the other. Each stage hands an uncaught exception of an
  earlier stage through, as the interpreter would stop there.
\<close>

definition logs_send :: "env \<Rightarrow> (exception + bool \<times> result_value) \<times> state" where
  "logs_send e = send_telemetry ''logs'' (logs_payload e) ''logs'' (start e)"

definition logs_done :: "env \<Rightarrow> (exception + unit) \<times> state" where
  "logs_done e =
     (case logs_send e of
        (Inl x, s) \<Rightarrow> (Inl x, s)
      | (Inr sr, s) \<Rightarrow> report ''Logs'' sr s)"

definition metrics_send :: "env \<Rightarrow> (exception + bool \<times> result_value) \<times> state" where
  "metrics_send e =
     (case logs_done e of
        (Inl x, s) \<Rightarrow> (Inl x, s)
      | (Inr u, s) \<Rightarrow> send_telemetry ''metrics'' (metrics_payload e) ''metrics'' s)"

definition metrics_done :: "env \<Rightarrow> (exception + unit) \<times> state" where
  "metrics_done e =
     (case metrics_send e of
        (Inl x, s) \<Rightarrow> (Inl x, s)
      | (Inr sr, s) \<Rightarrow> report ''Metrics'' sr s)"

definition traces_send :: "env \<Rightarrow> (exception + bool \<times> result_value) \<times> state" where
  "traces_send e =
     (case metrics_done e of
        (Inl x, s) \<Rightarrow> (Inl x, s)
      | (Inr u, s) \<Rightarrow> send_telemetry ''traces'' (trace_payload e) ''traces'' s)"

definition traces_done :: "env \<Rightarrow> (exception + unit) \<times> state" where
  "traces_done e =
     (case traces_send e of
        (Inl x, s) \<Rightarrow> (Inl x, s)
      | (Inr sr, s) \<Rightarrow> report ''Traces'' sr s)"

text \<open>Lines 235 to 252: the identifiers, the summary, the exit code.\<close>

definition finish :: "env \<Rightarrow> state \<Rightarrow> exit_status \<times> state" where
  "finish e s =
     (let s1 = print (''Generated traceId: '' @ trace_id_hex e) s;
          s2 = print (''Generated parent spanId: '' @ parent_span_id_hex e) s1;
          s3 = print (''Generated child spanId: '' @ child_span_id_hex e) s2;
          s4 = print (CHR 0x0A # ''Summary: '' @ str (int (success_count s3)) @ ''/''
                      @ str (int total_operations) @ '' operations completed successfully'') s3
      in if success_count s4 = 0 then
           (Exit 1, print (''All telemetry operations failed. ''
                           @ ''Check if the OpenTelemetry endpoint is available.'') s4)
         else if success_count s4 < total_operations then
           (Exit 1, print ''Some telemetry operations failed. Check the logs for details.'' s4)
         else
           (Exit 0, print ''All telemetry operations completed successfully.'' s4))"

definition main :: "env \<Rightarrow> exit_status \<times> state" where
  "main e =
     (case traces_done e of
        (Inl x, s) \<Rightarrow> (Traceback x, s)
      | (Inr u, s) \<Rightarrow> finish e s)"

section \<open>Notions used to state the properties\<close>

subsection \<open>Reading a payload\<close>

text \<open>
  A path into a JSON document: the value under a key of an object, the element at an index
  of an array; \<open>None\<close> where the document has no such key or element.
\<close>

datatype step = Key string | Idx nat

fun jget :: "json \<Rightarrow> step \<Rightarrow> json option" where
  "jget (JObj kvs) (Key k) = map_of kvs k"
| "jget (JArr xs) (Idx i) = (if i < length xs then Some (xs ! i) else None)"
| "jget j p = None"

fun jpath :: "json \<Rightarrow> step list \<Rightarrow> json option" where
  "jpath j [] = Some j"
| "jpath j (p # ps) = (case jget j p of None \<Rightarrow> None | Some j' \<Rightarrow> jpath j' ps)"

definition is_hex_char :: "char \<Rightarrow> bool" where
  "is_hex_char c = (c \<in> set ''0123456789abcdef'')"

definition digit_val :: "char \<Rightarrow> nat option" where
  "digit_val c = (if c \<in> set ''0123456789'' then Some (of_char c - 48) else None)"

fun parse_digits :: "nat \<Rightarrow> string \<Rightarrow> nat option" where
  "parse_digits acc [] = Some acc"
| "parse_digits acc (c # cs) =
     (case digit_val c of None \<Rightarrow> None | Some d \<Rightarrow> parse_digits (10 * acc + d) cs)"

definition parse_nat :: "string \<Rightarrow> nat option" where
  "parse_nat s = (if s = [] then None else parse_digits 0 s)"

definition parse_int :: "string \<Rightarrow> int option" where
  "parse_int s =
     (case s of
        [] \<Rightarrow> None
      | c # cs \<Rightarrow> if c = CHR ''-'' then map_option (\<lambda>n. - int n) (parse_nat cs)
                 else map_option int (parse_nat s))"

definition field :: "json option \<Rightarrow> string \<Rightarrow> json option" where
  "field j k = (case j of None \<Rightarrow> None | Some obj \<Rightarrow> jget obj (Key k))"

definition log_record :: "env \<Rightarrow> json option" where
  "log_record e =
     jpath (logs_payload e)
       [Key ''resourceLogs'', Idx 0, Key ''scopeLogs'', Idx 0, Key ''logRecords'', Idx 0]"

definition data_point :: "env \<Rightarrow> json option" where
  "data_point e =
     jpath (metrics_payload e)
       [Key ''resourceMetrics'', Idx 0, Key ''scopeMetrics'', Idx 0, Key ''metrics'', Idx 0,
        Key ''gauge'', Key ''dataPoints'', Idx 0]"

definition span :: "env \<Rightarrow> nat \<Rightarrow> json option" where
  "span e i =
     jpath (trace_payload e)
       [Key ''resourceSpans'', Idx 0, Key ''scopeSpans'', Idx 0, Key ''spans'', Idx i]"

definition time_field :: "json option \<Rightarrow> string \<Rightarrow> int option" where
  "time_field j k = (case field j k of Some (JStr s) \<Rightarrow> parse_int s | _ \<Rightarrow> None)"

definition window :: "json option \<Rightarrow> (int \<times> int) option" where
  "window sp =
     (case (time_field sp ''startTimeUnixNano'', time_field sp ''endTimeUnixNano'') of
        (Some a, Some b) \<Rightarrow> Some (a, b)
      | _ \<Rightarrow> None)"

definition contained :: "(int \<times> int) option \<Rightarrow> (int \<times> int) option \<Rightarrow> bool" where
  "contained inner outer =
     (case (inner, outer) of
        (Some (a, b), Some (c, d)) \<Rightarrow> c \<le> a \<and> a \<le> b \<and> b \<le> d
      | _ \<Rightarrow> False)"

subsection \<open>Reading a run\<close>

text \<open>
  The events a call added to the run, POST and sleep events among them, and the ways an
  attempt can end. The \<open>caught\<close> exceptions are those of the three failure categories
  (connection failure, timeout, other request failure). A \<open>failing\<close> answer of the network
  is an exception of these categories or a response whose status code is from 400 to 599;
  a \<open>catchable\<close> answer is a response or an exception of these categories. All three are
  read off the answer itself.
\<close>

fun is_post :: "event \<Rightarrow> bool" where
  "is_post (Post url hdrs body) = True"
| "is_post ev = False"

fun is_sleep :: "event \<Rightarrow> bool" where
  "is_sleep (Sleep secs) = True"
| "is_sleep ev = False"

definition emitted :: "state \<Rightarrow> state \<Rightarrow> event list" where
  "emitted s s' = drop (length (events s)) (events s')"

fun caught :: "exception \<Rightarrow> bool" where
  "caught (OtherException m) = False"
| "caught e = True"

definition failing :: "post_outcome \<Rightarrow> bool" where
  "failing outcome =
     (case outcome of
        Raises e \<Rightarrow> caught e
      | Returns r \<Rightarrow> 400 \<le> status_code r \<and> status_code r < 600)"

definition catchable :: "post_outcome \<Rightarrow> bool" where
  "catchable outcome = (case outcome of Raises e \<Rightarrow> caught e | Returns r \<Rightarrow> True)"

text \<open>
  A stage of the main sequence (a call of \<^verbatim>\<open>send_telemetry\<close> with the state it leaves):
  it \<open>returned\<close> when no exception left the call, it \<open>succeeded\<close> when it returned
  \<^verbatim>\<open>(True, ...)\<close> and it \<open>failed\<close> when it returned \<^verbatim>\<open>(False, ...)\<close>.
\<close>

definition returned :: "(exception + bool \<times> result_value) \<times> state \<Rightarrow> bool" where
  "returned stage = (case fst stage of Inl x \<Rightarrow> False | Inr sr \<Rightarrow> True)"

definition succeeded :: "(exception + bool \<times> result_value) \<times> state \<Rightarrow> bool" where
  "succeeded stage = (case fst stage of Inl x \<Rightarrow> False | Inr sr \<Rightarrow> fst sr)"

definition failed :: "(exception + bool \<times> result_value) \<times> state \<Rightarrow> bool" where
  "failed stage = (case fst stage of Inl x \<Rightarrow> False | Inr sr \<Rightarrow> \<not> fst sr)"

subsection \<open>Example runs\<close>

text \<open>
  Concrete responses and networks on which the theorems below are instantiated: a state
  at the start of a process whose network answers as the given function says.
\<close>

definition ok_response :: response where
  "ok_response = \<lparr>status_code = 200, reason = ''OK'',
                   resp_url = ''http://localhost:4318/v1/logs'', resp_text = ''{}''\<rparr>"

definition not_modified :: response where
  "not_modified = \<lparr>status_code = 304, reason = ''Not Modified'',
                    resp_url = ''http://localhost:4318/v1/logs'', resp_text = ''''\<rparr>"

definition unavailable :: response where
  "unavailable = \<lparr>status_code = 503, reason = ''Service Unavailable'',
                   resp_url = ''http://localhost:4318/v1/logs'', resp_text = ''''\<rparr>"

definition answering :: "(nat \<Rightarrow> post_outcome) \<Rightarrow> state" where
  "answering f = \<lparr>net = f, posts = 0, events = [], success_count = 0\<rparr>"

definition unavailable_timeout_then_ok :: "nat \<Rightarrow> post_outcome" where
  "unavailable_timeout_then_ok k =
     (if k = 0 then Returns unavailable
      else if k = 1 then Raises (Timeout ''timed out'')
      else Returns ok_response)"

definition never_accepting :: "nat \<Rightarrow> post_outcome" where
  "never_accepting k =
     (if k = 1 then Raises (ConnectionError ''connection refused'') else Returns unavailable)"

definition redirect_then_ok :: "nat \<Rightarrow> post_outcome" where
  "redirect_then_ok k = (if k = 0 then Returns not_modified else Returns ok_response)"

definition always_not_modified :: "nat \<Rightarrow> post_outcome" where
  "always_not_modified k = Returns not_modified"



section \<open>Payloads\<close>

lemma small_nat_cases10: "d < 10 \<Longrightarrow> d = 0 \<or> d = 1 \<or> d = 2 \<or> d = 3 \<or> d = 4 \<or> d = 5 \<or> d = 6 \<or> d = 7 \<or> d = 8 \<or> d = (9::nat)"
  by arith

lemma small_nat_cases16: "d < 16 \<Longrightarrow> d = 0 \<or> d = 1 \<or> d = 2 \<or> d = 3 \<or> d = 4 \<or> d = 5 \<or> d = 6 \<or> d = 7 \<or> d = 8 \<or> d = 9 \<or> d = 10 \<or> d = 11 \<or> d = 12 \<or> d = 13 \<or> d = 14 \<or> d = (15::nat)"
  by arith

lemma digit_val_digit_char: "d < 10 \<Longrightarrow> digit_val (digit_char d) = Some d"
  by (drule small_nat_cases10) (auto simp: digit_val_def digit_char_def)

lemma digit_char_not_minus: "d < 10 \<Longrightarrow> digit_char d \<noteq> CHR ''-''"
  by (drule small_nat_cases10) (auto simp: digit_char_def)

lemma hex_char_is_hex: "d < 16 \<Longrightarrow> is_hex_char (hex_char d)"
  by (drule small_nat_cases16) (auto simp: is_hex_char_def hex_char_def)

lemma parse_digits_snoc:
  "parse_digits acc (xs @ [c]) =
     (case parse_digits acc xs of
        None \<Rightarrow> None
      | Some v \<Rightarrow> (case digit_val c of None \<Rightarrow> None | Some d \<Rightarrow> Some (10 * v + d)))"
  by (induction xs arbitrary: acc) (auto split: option.splits)

lemma parse_digits_str_nat: "parse_digits 0 (str_nat n) = Some n"
proof (induction n rule: str_nat.induct)
  case (1 n)
  show ?case
  proof (cases "n < 10")
    case True
    then show ?thesis
      by (subst str_nat.simps) (simp add: digit_val_digit_char)
  next
    case False
    then have "parse_digits 0 (str_nat (n div 10)) = Some (n div 10)"
      using 1 by simp
    with False show ?thesis
      by (subst str_nat.simps) (simp add: parse_digits_snoc digit_val_digit_char)
  qed
qed

lemma str_nat_nonempty: "str_nat n \<noteq> []"
  by (subst str_nat.simps) simp

lemma hd_str_nat_not_minus: "hd (str_nat n) \<noteq> CHR ''-''"
proof (induction n rule: str_nat.induct)
  case (1 n)
  show ?case
  proof (cases "n < 10")
    case True
    then show ?thesis
      by (subst str_nat.simps) (simp add: digit_char_not_minus)
  next
    case False
    with 1 show ?thesis
      by (subst str_nat.simps) (simp add: str_nat_nonempty)
  qed
qed

lemma parse_nat_str_nat: "parse_nat (str_nat n) = Some n"
  by (simp add: parse_nat_def str_nat_nonempty parse_digits_str_nat)

lemma parse_int_str: "parse_int (str i) = Some i"
proof (cases "i < 0")
  case True
  then show ?thesis
    by (simp add: parse_int_def str_def parse_nat_str_nat)
next
  case False
  obtain c cs where s: "str_nat (nat i) = c # cs"
    using str_nat_nonempty [of "nat i"] by (cases "str_nat (nat i)") auto
  have "c \<noteq> CHR ''-''"
    using hd_str_nat_not_minus [of "nat i"] s by simp
  with False s show ?thesis
    using parse_nat_str_nat [of "nat i"] by (simp add: parse_int_def str_def)
qed

lemma length_hex: "length (hex bs) = 2 * length bs"
  by (induction bs) (simp_all add: hex_def hex_byte_def)

lemma hex_all_hex: "list_all is_hex_char (hex bs)"
proof (induction bs)
  case Nil
  show ?case by (simp add: hex_def)
next
  case (Cons b bs)
  have "unat b < 256" using unsigned_less [of b] by simp
  then have "unat b div 16 < 16" by simp
  with Cons show ?case
    by (simp add: hex_def hex_byte_def hex_char_is_hex)
qed

lemma length_urandom: "length (fst (urandom n src)) = n"
  by (simp add: urandom_def)

lemma span_parent:
  "span e 0 = Some (JObj [
                 (''traceId'', JStr (trace_id_hex e)),
                 (''spanId'', JStr (parent_span_id_hex e)),
                 (''name'', JStr ''parent-operation''),
                 (''kind'', JStr ''SPAN_KIND_SERVER''),
                 (''startTimeUnixNano'', JStr (str (current_time_ns e))),
                 (''endTimeUnixNano'', JStr (str (current_time_ns e + 30000000000))),
                 (''attributes'', JArr [
                   JObj [(''key'', JStr ''operation.type''),
                         (''value'', JObj [(''stringValue'', JStr ''parent'')])]])])"
  by (simp add: span_def trace_payload_def)

lemma span_child:
  "span e (Suc 0) = Some (JObj [
                 (''traceId'', JStr (trace_id_hex e)),
                 (''spanId'', JStr (child_span_id_hex e)),
                 (''parentSpanId'', JStr (parent_span_id_hex e)),
                 (''name'', JStr ''child-operation''),
                 (''kind'', JStr ''SPAN_KIND_INTERNAL''),
                 (''startTimeUnixNano'', JStr (str (current_time_ns e + 5000000000))),
                 (''endTimeUnixNano'', JStr (str (current_time_ns e + 15000000000))),
                 (''attributes'', JArr [
                   JObj [(''key'', JStr ''operation.type''),
                         (''value'', JObj [(''stringValue'', JStr ''child'')])]])])"
  by (simp add: span_def trace_payload_def)

lemma no_more_spans: "span e (Suc (Suc i)) = None"
  by (simp add: span_def trace_payload_def)

text \<open>
  Claim C6: the trace id is 32 hexadecimal characters and both span ids are 16; the two
  spans carry the generated ids; the parent span has no \<open>parentSpanId\<close> field and the
  child's \<open>parentSpanId\<close> is the parent's \<open>spanId\<close>.
\<close>

theorem generated_ids_shape:
  "length (trace_id_hex e) = 32 \<and> list_all is_hex_char (trace_id_hex e)
   \<and> length (parent_span_id_hex e) = 16 \<and> list_all is_hex_char (parent_span_id_hex e)
   \<and> length (child_span_id_hex e) = 16 \<and> list_all is_hex_char (child_span_id_hex e)
   \<and> field (span e 0) ''traceId'' = Some (JStr (trace_id_hex e))
   \<and> field (span e 1) ''traceId'' = Some (JStr (trace_id_hex e))
   \<and> field (span e 0) ''spanId'' = Some (JStr (parent_span_id_hex e))
   \<and> field (span e 1) ''spanId'' = Some (JStr (child_span_id_hex e))
   \<and> field (span e 0) ''parentSpanId'' = None
   \<and> field (span e 1) ''parentSpanId'' = field (span e 0) ''spanId''"
  by (simp add: span_parent span_child field_def trace_id_hex_def parent_span_id_hex_def
        child_span_id_hex_def length_hex hex_all_hex length_urandom)

text \<open>
  Claim C7: read back as numbers, the parent span runs from the captured timestamp \<open>t\<close> to
  \<open>t + 30 s\<close> and the child span from \<open>t + 5 s\<close> to \<open>t + 15 s\<close>, so the child's window
  lies inside the parent's.
\<close>

theorem span_windows:
  "window (span e 0) = Some (time_ns e, time_ns e + 30000000000)
   \<and> window (span e 1) = Some (time_ns e + 5000000000, time_ns e + 15000000000)
   \<and> contained (window (span e 1)) (window (span e 0))"
  by (simp add: span_parent span_child window_def time_field_def field_def parse_int_str
        contained_def current_time_ns_def)

text \<open>
  Claim C8: the \<open>asInt\<close> value of the gauge data point is an integer from 0 to 100.
\<close>

theorem gauge_value_range:
  "\<exists>v. field (data_point e) ''asInt'' = Some (JInt v) \<and> 0 \<le> v \<and> v \<le> 100"
  by (simp add: data_point_def metrics_payload_def field_def randint_def)

text \<open>
  Claim C9: the log record's \<open>timeUnixNano\<close>, the data point's \<open>timeUnixNano\<close> and the
  parent span's \<open>startTimeUnixNano\<close> are all the decimal string of the one captured
  timestamp.
\<close>

theorem payloads_share_timestamp:
  "field (log_record e) ''timeUnixNano'' = Some (JStr (str (time_ns e)))
   \<and> field (data_point e) ''timeUnixNano'' = Some (JStr (str (time_ns e)))
   \<and> field (span e 0) ''startTimeUnixNano'' = Some (JStr (str (time_ns e)))"
  by (simp add: log_record_def logs_payload_def data_point_def metrics_payload_def span_parent
        field_def current_time_ns_def)

section \<open>The sender\<close>

lemmas io_defs = print_def sleep_def requests_post_def

lemma except_clause_None: "except_clause url ttype e = None \<longleftrightarrow> \<not> caught e"
  by (cases e) simp_all

lemma raise_for_status_caught: "raise_for_status r = Some e \<Longrightarrow> caught e"
  by (auto simp: raise_for_status_def split: if_splits)

lemma raise_for_status_None:
  "raise_for_status r = None \<longleftrightarrow> \<not> (400 \<le> status_code r \<and> status_code r < 600)"
  by (auto simp: raise_for_status_def)

lemma send_attempt_frame:
  assumes "send_attempt url payload ttype a s = (out, s')"
  shows "net s' = net s \<and> posts s' = Suc (posts s) \<and> success_count s' = success_count s
         \<and> (\<exists>X. events s' = events s @ X \<and> filter is_post X = [Post url headers payload])"
  using assms
  by (auto simp: send_attempt_def Let_def io_defs split: sum.splits option.splits if_splits)

lemma failing_checked:
  assumes "failing outcome"
  shows "\<exists>e. checked outcome = Inl e \<and> caught e"
proof (cases outcome)
  case (Raises e)
  with assms show ?thesis by (simp add: failing_def checked_def)
next
  case (Returns r)
  with assms have "raise_for_status r \<noteq> None"
    by (simp add: failing_def raise_for_status_None)
  then obtain e where e: "raise_for_status r = Some e" by auto
  then have "caught e" by (rule raise_for_status_caught)
  with e Returns show ?thesis by (simp add: checked_def)
qed

lemma send_attempt_fail:
  assumes "failing (net s (posts s))"
  shows "\<exists>s' line. send_attempt url payload ttype a s = (None, s')
           \<and> net s' = net s \<and> posts s' = Suc (posts s)
           \<and> events s' = events s @
                [Print (''Sending '' @ ttype @ '' (attempt '' @ str (int a + 1) @ ''/''
                        @ str (int MAX_RETRIES) @ '')...''),
                 Post url headers payload, Print line]
                @ (if a < MAX_RETRIES - 1
                   then [Print (''Retrying in '' @ str (int RETRY_DELAY) @ '' seconds...''),
                         Sleep RETRY_DELAY]
                   else [])"
proof -
  from failing_checked [OF assms]
  obtain e where e: "checked (net s (posts s)) = Inl e" "caught e"
    by blast
  then obtain line where "except_clause url ttype e = Some line"
    using except_clause_None [of url ttype e] by (cases "except_clause url ttype e") auto
  with e show ?thesis
    by (simp add: send_attempt_def Let_def io_defs)
qed

lemma send_attempt_ok:
  assumes "net s (posts s) = Returns r" and "raise_for_status r = None"
  shows "\<exists>s'. send_attempt url payload ttype a s = (Some (Inr (True, Resp r)), s')
           \<and> net s' = net s \<and> posts s' = Suc (posts s)
           \<and> events s' = events s @
                [Print (''Sending '' @ ttype @ '' (attempt '' @ str (int a + 1) @ ''/''
                        @ str (int MAX_RETRIES) @ '')...''),
                 Post url headers payload]"
  using assms by (simp add: send_attempt_def Let_def io_defs checked_def)

lemma attempts: "[0..<MAX_RETRIES] = [0, 1, 2]"
  by (simp add: MAX_RETRIES_def upt_rec)

lemma send_loop_fails_then_ok:
  assumes "\<forall>i<n. failing (net s (posts s + i))"
    and "net s (posts s + n) = Returns r" and "raise_for_status r = None"
    and "n < length as" and "list_all (\<lambda>a. a < MAX_RETRIES - 1) (take n as)"
  shows "\<exists>s' X. send_loop url p t as s = (Some (Inr (True, Resp r)), s')
           \<and> net s' = net s \<and> posts s' = posts s + n + 1
           \<and> events s' = events s @ X
           \<and> filter is_post X = replicate (n + 1) (Post url headers p)
           \<and> filter is_sleep X = replicate n (Sleep RETRY_DELAY)
           \<and> last X = Post url headers p"
  using assms
proof (induction as arbitrary: s n)
  case Nil
  then show ?case by simp
next
  case (Cons a rest)
  show ?case
  proof (cases n)
    case 0
    with Cons.prems send_attempt_ok [of s r url p t a]
    show ?thesis by auto
  next
    case (Suc m)
    with Cons.prems have f0: "failing (net s (posts s))" and a: "a < MAX_RETRIES - 1"
      by auto
    from send_attempt_fail [OF f0, of url p t a] a
    obtain s1 line where s1: "send_attempt url p t a s = (None, s1)"
      "net s1 = net s" "posts s1 = Suc (posts s)"
      "events s1 = events s @
         [Print (''Sending '' @ t @ '' (attempt '' @ str (int a + 1) @ ''/''
                 @ str (int MAX_RETRIES) @ '')...''),
          Post url headers p, Print line,
          Print (''Retrying in '' @ str (int RETRY_DELAY) @ '' seconds...''),
          Sleep RETRY_DELAY]"
      by auto
    have "\<forall>i<m. failing (net s1 (posts s1 + i))"
    proof (intro allI impI)
      fix i assume "i < m"
      then have "Suc i < n" using Suc by simp
      with Cons.prems(1) have "failing (net s (posts s + Suc i))" by blast
      then show "failing (net s1 (posts s1 + i))" using s1 by simp
    qed
    moreover have "net s1 (posts s1 + m) = Returns r"
      using Cons.prems(2) s1 Suc by simp
    moreover have "m < length rest" using Cons.prems(4) Suc by simp
    moreover have "list_all (\<lambda>a. a < MAX_RETRIES - 1) (take m rest)"
      using Cons.prems(5) Suc by simp
    ultimately obtain s' X where r:
      "send_loop url p t rest s1 = (Some (Inr (True, Resp r)), s')"
      "net s' = net s1" "posts s' = posts s1 + m + 1" "events s' = events s1 @ X"
      "filter is_post X = replicate (m + 1) (Post url headers p)"
      "filter is_sleep X = replicate m (Sleep RETRY_DELAY)"
      "last X = Post url headers p"
      using Cons.IH [of m s1] Cons.prems(3) by blast
    from r(5) have "X \<noteq> []" by auto
    with s1 r Suc show ?thesis
      by simp
  qed
qed

lemma send_loop_all_fail:
  assumes "failing (net s (posts s))" and "failing (net s (Suc (posts s)))"
    and "failing (net s (Suc (Suc (posts s))))"
  shows "\<exists>s' X. send_loop url p t [0..<MAX_RETRIES] s = (None, s')
           \<and> net s' = net s \<and> posts s' = posts s + 3
           \<and> events s' = events s @ X
           \<and> filter is_post X = replicate 3 (Post url headers p)
           \<and> filter is_sleep X = replicate 2 (Sleep RETRY_DELAY)
           \<and> \<not> is_sleep (last X)"
proof -
  from send_attempt_fail [OF assms(1), of url p t 0]
  obtain s1 l1 where s1: "send_attempt url p t 0 s = (None, s1)"
      "net s1 = net s" "posts s1 = Suc (posts s)"
      "events s1 = events s @
         [Print (''Sending '' @ t @ '' (attempt '' @ str (int 0 + 1) @ ''/''
                 @ str (int MAX_RETRIES) @ '')...''),
          Post url headers p, Print l1,
          Print (''Retrying in '' @ str (int RETRY_DELAY) @ '' seconds...''),
          Sleep RETRY_DELAY]"
    by (auto simp: MAX_RETRIES_def)
  have "failing (net s1 (posts s1))" using assms(2) s1 by simp
  from send_attempt_fail [OF this, of url p t 1]
  obtain s2 l2 where s2: "send_attempt url p t 1 s1 = (None, s2)"
      "net s2 = net s1" "posts s2 = Suc (posts s1)"
      "events s2 = events s1 @
         [Print (''Sending '' @ t @ '' (attempt '' @ str (int 1 + 1) @ ''/''
                 @ str (int MAX_RETRIES) @ '')...''),
          Post url headers p, Print l2,
          Print (''Retrying in '' @ str (int RETRY_DELAY) @ '' seconds...''),
          Sleep RETRY_DELAY]"
    by (auto simp: MAX_RETRIES_def)
  have "failing (net s2 (posts s2))" using assms(3) s1 s2 by simp
  from send_attempt_fail [OF this, of url p t 2]
  obtain s3 l3 where s3: "send_attempt url p t 2 s2 = (None, s3)"
      "net s3 = net s2" "posts s3 = Suc (posts s2)"
      "events s3 = events s2 @
         [Print (''Sending '' @ t @ '' (attempt '' @ str (int 2 + 1) @ ''/''
                 @ str (int MAX_RETRIES) @ '')...''),
          Post url headers p, Print l3]"
    by (auto simp: MAX_RETRIES_def)
  show ?thesis
    using s1 s2 s3 by (simp add: attempts numeral_3_eq_3 numeral_2_eq_2)
qed

lemma emitted_append: "events s' = events s @ X \<Longrightarrow> emitted s s' = X"
  by (simp add: emitted_def)

text \<open>
  Claim C1 as stated does not hold when a failing attempt is any attempt without a 2xx
  response, as the specification has it: with a 304 response followed by a 200 response
  (\<open>N = 1\<close>), the call makes one POST and no sleep, and returns the 304 response as its
  success, not the 200 response after two POSTs and one sleep.
\<close>

theorem redirect_then_ok_counterexample:
  "redirect_then_ok 0 = Returns not_modified
   \<and> \<not> (200 \<le> status_code not_modified \<and> status_code not_modified < 300)
   \<and> redirect_then_ok 1 = Returns ok_response
   \<and> 200 \<le> status_code ok_response \<and> status_code ok_response < 300
   \<and> fst (send_telemetry ''logs'' (JObj []) ''logs'' (answering redirect_then_ok))
       = Inr (True, Resp not_modified)
   \<and> fst (send_telemetry ''logs'' (JObj []) ''logs'' (answering redirect_then_ok))
       \<noteq> Inr (True, Resp ok_response)
   \<and> filter is_post (emitted (answering redirect_then_ok)
        (snd (send_telemetry ''logs'' (JObj []) ''logs'' (answering redirect_then_ok))))
       = replicate 1 (Post (url_base @ ''/'' @ ''logs'') headers (JObj []))
   \<and> filter is_sleep (emitted (answering redirect_then_ok)
        (snd (send_telemetry ''logs'' (JObj []) ''logs'' (answering redirect_then_ok))))
       = []"
  by (simp add: send_telemetry_def attempts send_attempt_def Let_def io_defs checked_def
        raise_for_status_def answering_def redirect_then_ok_def not_modified_def
        ok_response_def emitted_def)

text \<open>
  Claim C1, amended: whatever the endpoint, payload and telemetry type, when each of the
  first \<open>N < 3\<close> POSTs fails (a connection failure, a timeout, another request failure,
  or a response with a status code from 400 to 599) and the next one returns a 2xx
  response, \<^verbatim>\<open>send_telemetry\<close> returns \<^verbatim>\<open>(True, response)\<close> after exactly \<open>N + 1\<close> POSTs and
  exactly \<open>N\<close> sleeps of 2 seconds; the successful POST is the last thing it does.
\<close>

theorem send_telemetry_retries_then_succeeds:
  assumes "N < MAX_RETRIES"
    and "\<forall>i<N. failing (net s (posts s + i))"
    and "net s (posts s + N) = Returns r"
    and "200 \<le> status_code r \<and> status_code r < 300"
  shows "fst (send_telemetry endpoint payload telemetry_type s) = Inr (True, Resp r)
    \<and> filter is_post (emitted s (snd (send_telemetry endpoint payload telemetry_type s)))
        = replicate (N + 1) (Post (url_base @ ''/'' @ endpoint) headers payload)
    \<and> filter is_sleep (emitted s (snd (send_telemetry endpoint payload telemetry_type s)))
        = replicate N (Sleep 2)
    \<and> last (emitted s (snd (send_telemetry endpoint payload telemetry_type s)))
        = Post (url_base @ ''/'' @ endpoint) headers payload"
proof -
  let ?url = "url_base @ ''/'' @ endpoint"
  have ok: "raise_for_status r = None"
    using assms(4) by (simp add: raise_for_status_None)
  have len: "N < length [0..<MAX_RETRIES]" using assms(1) by simp
  have early: "list_all (\<lambda>a. a < MAX_RETRIES - 1) (take N [0..<MAX_RETRIES])"
    using assms(1) by (auto simp: attempts MAX_RETRIES_def less_Suc_eq numeral_3_eq_3)
  from send_loop_fails_then_ok [OF assms(2) assms(3) ok len early, of ?url payload telemetry_type]
  obtain s' X where
    "send_loop ?url payload telemetry_type [0..<MAX_RETRIES] s = (Some (Inr (True, Resp r)), s')"
    "events s' = events s @ X"
    "filter is_post X = replicate (N + 1) (Post ?url headers payload)"
    "filter is_sleep X = replicate N (Sleep RETRY_DELAY)"
    "last X = Post ?url headers payload"
    by blast
  then show ?thesis
    by (simp add: send_telemetry_def emitted_append RETRY_DELAY_def)
qed

theorem send_telemetry_retries_then_succeeds_witness:
  "failing (unavailable_timeout_then_ok 0) \<and> failing (unavailable_timeout_then_ok 1)
   \<and> unavailable_timeout_then_ok 2 = Returns ok_response
   \<and> fst (send_telemetry ''logs'' (JObj []) ''logs'' (answering unavailable_timeout_then_ok))
     = Inr (True, Resp ok_response)
   \<and> filter is_post (emitted (answering unavailable_timeout_then_ok)
        (snd (send_telemetry ''logs'' (JObj []) ''logs'' (answering unavailable_timeout_then_ok))))
     = replicate 3 (Post (url_base @ ''/'' @ ''logs'') headers (JObj []))
   \<and> filter is_sleep (emitted (answering unavailable_timeout_then_ok)
        (snd (send_telemetry ''logs'' (JObj []) ''logs'' (answering unavailable_timeout_then_ok))))
     = replicate 2 (Sleep 2)
   \<and> last (emitted (answering unavailable_timeout_then_ok)
        (snd (send_telemetry ''logs'' (JObj []) ''logs'' (answering unavailable_timeout_then_ok))))
     = Post (url_base @ ''/'' @ ''logs'') headers (JObj [])"
proof -
  have f: "failing (unavailable_timeout_then_ok 0)" "failing (unavailable_timeout_then_ok 1)"
    by (simp_all add: unavailable_timeout_then_ok_def failing_def unavailable_def)
  have r: "unavailable_timeout_then_ok 2 = Returns ok_response"
    by (simp add: unavailable_timeout_then_ok_def)
  have h1: "2 < MAX_RETRIES" by (simp add: MAX_RETRIES_def)
  have h2: "\<forall>i<2. failing (net (answering unavailable_timeout_then_ok)
                               (posts (answering unavailable_timeout_then_ok) + i))"
  proof (intro allI impI)
    fix i :: nat assume "i < 2"
    then have "i = 0 \<or> i = 1" by arith
    with f show "failing (net (answering unavailable_timeout_then_ok)
                            (posts (answering unavailable_timeout_then_ok) + i))"
      by (auto simp: answering_def)
  qed
  have h3: "net (answering unavailable_timeout_then_ok)
              (posts (answering unavailable_timeout_then_ok) + 2) = Returns ok_response"
    by (simp add: answering_def unavailable_timeout_then_ok_def)
  have h4: "200 \<le> status_code ok_response \<and> status_code ok_response < 300"
    by (simp add: ok_response_def)
  have c: "fst (send_telemetry ''logs'' (JObj []) ''logs'' (answering unavailable_timeout_then_ok))
     = Inr (True, Resp ok_response)
   \<and> filter is_post (emitted (answering unavailable_timeout_then_ok)
        (snd (send_telemetry ''logs'' (JObj []) ''logs'' (answering unavailable_timeout_then_ok))))
     = replicate 3 (Post (url_base @ ''/'' @ ''logs'') headers (JObj []))
   \<and> filter is_sleep (emitted (answering unavailable_timeout_then_ok)
        (snd (send_telemetry ''logs'' (JObj []) ''logs'' (answering unavailable_timeout_then_ok))))
     = replicate 2 (Sleep 2)
   \<and> last (emitted (answering unavailable_timeout_then_ok)
        (snd (send_telemetry ''logs'' (JObj []) ''logs'' (answering unavailable_timeout_then_ok))))
     = Post (url_base @ ''/'' @ ''logs'') headers (JObj [])"
    using send_telemetry_retries_then_succeeds [OF h1 h2 h3 h4, of "''logs''" "JObj []" "''logs''"]
    by simp
  from f r c show ?thesis by blast
qed

text \<open>
  Claim C2 as stated does not hold when a failing attempt is any attempt without a 2xx
  response, as the specification has it: when every POST is answered with a 304 response,
  the call makes one POST and no sleep, and returns the 304 response as a success, not the
  failure result after three POSTs.
\<close>

theorem three_redirects_counterexample:
  "always_not_modified 0 = Returns not_modified
   \<and> always_not_modified 1 = Returns not_modified
   \<and> always_not_modified 2 = Returns not_modified
   \<and> \<not> (200 \<le> status_code not_modified \<and> status_code not_modified < 300)
   \<and> fst (send_telemetry ''logs'' (JObj []) ''logs'' (answering always_not_modified))
       = Inr (True, Resp not_modified)
   \<and> fst (send_telemetry ''logs'' (JObj []) ''logs'' (answering always_not_modified))
       \<noteq> Inr (False, Msg ''Failed to send logs after 3 attempts'')
   \<and> filter is_post (emitted (answering always_not_modified)
        (snd (send_telemetry ''logs'' (JObj []) ''logs'' (answering always_not_modified))))
       = replicate 1 (Post (url_base @ ''/'' @ ''logs'') headers (JObj []))
   \<and> filter is_sleep (emitted (answering always_not_modified)
        (snd (send_telemetry ''logs'' (JObj []) ''logs'' (answering always_not_modified))))
       = []"
  by (simp add: send_telemetry_def attempts send_attempt_def Let_def io_defs checked_def
        raise_for_status_def answering_def always_not_modified_def not_modified_def
        emitted_def)

text \<open>
  Claim C2, amended: when all three POSTs fail (each by a connection failure, a timeout,
  another request failure, or a response with a status code from 400 to 599),
  \<^verbatim>\<open>send_telemetry\<close> makes exactly 3 POSTs and exactly 2 sleeps of 2 seconds, none of them
  after the last attempt, and returns \<^verbatim>\<open>(False, "Failed to send <type> after 3 attempts")\<close>.
\<close>

theorem send_telemetry_gives_up_after_three:
  assumes "failing (net s (posts s))" and "failing (net s (posts s + 1))"
    and "failing (net s (posts s + 2))"
  shows "fst (send_telemetry endpoint payload telemetry_type s)
           = Inr (False, Msg (''Failed to send '' @ telemetry_type @ '' after 3 attempts''))
    \<and> filter is_post (emitted s (snd (send_telemetry endpoint payload telemetry_type s)))
        = replicate 3 (Post (url_base @ ''/'' @ endpoint) headers payload)
    \<and> filter is_sleep (emitted s (snd (send_telemetry endpoint payload telemetry_type s)))
        = replicate 2 (Sleep 2)
    \<and> \<not> is_sleep (last (emitted s (snd (send_telemetry endpoint payload telemetry_type s))))"
proof -
  let ?url = "url_base @ ''/'' @ endpoint"
  have three: "str (int MAX_RETRIES) = ''3''"
    by (simp add: MAX_RETRIES_def str_def str_nat.simps digit_char_def)
  from assms have "failing (net s (Suc (posts s)))" "failing (net s (Suc (Suc (posts s))))"
    by simp_all
  from send_loop_all_fail [OF assms(1) this, of ?url payload telemetry_type]
  obtain s' X where
    "send_loop ?url payload telemetry_type [0..<MAX_RETRIES] s = (None, s')"
    "events s' = events s @ X"
    "filter is_post X = replicate 3 (Post ?url headers payload)"
    "filter is_sleep X = replicate 2 (Sleep RETRY_DELAY)"
    "\<not> is_sleep (last X)"
    by blast
  then show ?thesis
    by (simp add: send_telemetry_def emitted_append RETRY_DELAY_def three)
qed

theorem send_telemetry_gives_up_after_three_witness:
  "never_accepting 0 = Returns unavailable
   \<and> never_accepting 1 = Raises (ConnectionError ''connection refused'')
   \<and> never_accepting 2 = Returns unavailable
   \<and> failing (never_accepting 0) \<and> failing (never_accepting 1) \<and> failing (never_accepting 2)
   \<and> fst (send_telemetry ''metrics'' (JObj []) ''metrics'' (answering never_accepting))
     = Inr (False, Msg ''Failed to send metrics after 3 attempts'')
   \<and> filter is_post (emitted (answering never_accepting)
        (snd (send_telemetry ''metrics'' (JObj []) ''metrics'' (answering never_accepting))))
     = replicate 3 (Post (url_base @ ''/'' @ ''metrics'') headers (JObj []))
   \<and> filter is_sleep (emitted (answering never_accepting)
        (snd (send_telemetry ''metrics'' (JObj []) ''metrics'' (answering never_accepting))))
     = replicate 2 (Sleep 2)
   \<and> \<not> is_sleep (last (emitted (answering never_accepting)
        (snd (send_telemetry ''metrics'' (JObj []) ''metrics'' (answering never_accepting)))))"
proof -
  have a: "never_accepting 0 = Returns unavailable"
    "never_accepting 1 = Raises (ConnectionError ''connection refused'')"
    "never_accepting 2 = Returns unavailable"
    by (simp_all add: never_accepting_def)
  have h: "failing (never_accepting k)" for k
    by (simp add: never_accepting_def failing_def unavailable_def)
  have g: "failing (net (answering never_accepting) (posts (answering never_accepting)))"
    "failing (net (answering never_accepting) (posts (answering never_accepting) + 1))"
    "failing (net (answering never_accepting) (posts (answering never_accepting) + 2))"
    using h by (simp_all add: answering_def)
  have c: "fst (send_telemetry ''metrics'' (JObj []) ''metrics'' (answering never_accepting))
     = Inr (False, Msg ''Failed to send metrics after 3 attempts'')
   \<and> filter is_post (emitted (answering never_accepting)
        (snd (send_telemetry ''metrics'' (JObj []) ''metrics'' (answering never_accepting))))
     = replicate 3 (Post (url_base @ ''/'' @ ''metrics'') headers (JObj []))
   \<and> filter is_sleep (emitted (answering never_accepting)
        (snd (send_telemetry ''metrics'' (JObj []) ''metrics'' (answering never_accepting))))
     = replicate 2 (Sleep 2)
   \<and> \<not> is_sleep (last (emitted (answering never_accepting)
        (snd (send_telemetry ''metrics'' (JObj []) ''metrics'' (answering never_accepting)))))"
    using send_telemetry_gives_up_after_three
      [OF g, of "''metrics''" "JObj []" "''metrics''"]
    by simp
  from a h [of 0] h [of 1] h [of 2] c show ?thesis by blast
qed

text \<open>
  Claim C4 as stated (every status outside 2xx fails the attempt) does not hold: a
  response with status 304 passes \<^verbatim>\<open>raise_for_status\<close>, and the call returns it as a
  success after a single POST.
\<close>

theorem redirect_status_counterexample:
  "\<not> (200 \<le> status_code not_modified \<and> status_code not_modified < 300)
   \<and> fst (send_telemetry ''logs'' (JObj []) ''logs'' (answering (\<lambda>k. Returns not_modified)))
       = Inr (True, Resp not_modified)
   \<and> filter is_post (events (snd (send_telemetry ''logs'' (JObj []) ''logs''
        (answering (\<lambda>k. Returns not_modified)))))
       = [Post (url_base @ ''/logs'') headers (JObj [])]"
  by (simp add: send_telemetry_def attempts send_attempt_def Let_def io_defs checked_def
        raise_for_status_def answering_def not_modified_def)

text \<open>
  Claim C4, amended: an attempt whose POST returns a response fails (and the loop goes
  on) exactly when the status code is from 400 to 599; a response with any other status
  code ends the call with \<^verbatim>\<open>(True, response)\<close>.
\<close>

theorem error_status_fails_attempt:
  assumes "net s (posts s) = Returns r"
  shows "fst (send_attempt url payload telemetry_type attempt s)
           = (if 400 \<le> status_code r \<and> status_code r < 600 then None
              else Some (Inr (True, Resp r)))"
proof (cases "400 \<le> status_code r \<and> status_code r < 600")
  case True
  then have "failing (net s (posts s))"
    using assms by (simp add: failing_def)
  from send_attempt_fail [OF this, of url payload telemetry_type attempt] True
  show ?thesis by auto
next
  case False
  then have "raise_for_status r = None"
    by (simp add: raise_for_status_None)
  from send_attempt_ok [OF assms this, of url payload telemetry_type attempt] False
  show ?thesis by auto
qed

theorem error_status_fails_attempt_witness:
  "fst (send_attempt (url_base @ ''/logs'') (JObj []) ''logs'' 0
          (answering (\<lambda>k. Returns unavailable))) = None"
  using error_status_fails_attempt [of "answering (\<lambda>k. Returns unavailable)" unavailable
          "url_base @ ''/logs''" "JObj []" "''logs''" 0]
  by (simp add: answering_def unavailable_def)

lemma send_loop_posts:
  assumes "send_loop url p t as s = (out, s')"
  shows "net s' = net s \<and> success_count s' = success_count s
         \<and> posts s \<le> posts s' \<and> posts s' \<le> posts s + length as
         \<and> (as \<noteq> [] \<longrightarrow> posts s < posts s')
         \<and> (\<exists>X. events s' = events s @ X
                \<and> filter is_post X = replicate (posts s' - posts s) (Post url headers p))"
  using assms
proof (induction as arbitrary: s)
  case Nil
  then show ?case by simp
next
  case (Cons a rest)
  obtain o1 s1 where a1: "send_attempt url p t a s = (o1, s1)"
    by (cases "send_attempt url p t a s")
  from send_attempt_frame [OF a1]
  obtain X1 where f1: "net s1 = net s" "posts s1 = Suc (posts s)"
      "success_count s1 = success_count s" "events s1 = events s @ X1"
      "filter is_post X1 = [Post url headers p]"
    by blast
  show ?case
  proof (cases o1)
    case (Some v)
    with Cons.prems a1 have "s' = s1" by simp
    with f1 show ?thesis by simp
  next
    case None
    with Cons.prems a1 have "send_loop url p t rest s1 = (out, s')" by simp
    from Cons.IH [OF this]
    obtain X where r: "net s' = net s1" "success_count s' = success_count s1"
        "posts s1 \<le> posts s'" "posts s' \<le> posts s1 + length rest"
        "events s' = events s1 @ X"
        "filter is_post X = replicate (posts s' - posts s1) (Post url headers p)"
      by blast
    have "posts s' - posts s = Suc (posts s' - posts s1)"
      using f1(2) r(3) by simp
    with f1 r show ?thesis
      by simp
  qed
qed

text \<open>
  Claim C10: every POST of one call of \<^verbatim>\<open>send_telemetry\<close> goes to the same URL (the base
  URL, a slash, the endpoint) with the same \<open>Content-Type: application/json\<close> header and
  the payload as it was passed; a call makes between one and three of them.
\<close>

theorem send_telemetry_posts_same_request:
  "filter is_post (emitted s (snd (send_telemetry endpoint payload telemetry_type s)))
     = replicate (posts (snd (send_telemetry endpoint payload telemetry_type s)) - posts s)
         (Post (''http://localhost:4318/v1'' @ ''/'' @ endpoint)
               [(''Content-Type'', ''application/json'')] payload)
   \<and> 1 \<le> posts (snd (send_telemetry endpoint payload telemetry_type s)) - posts s
   \<and> posts (snd (send_telemetry endpoint payload telemetry_type s)) - posts s \<le> 3"
proof -
  let ?url = "url_base @ ''/'' @ endpoint"
  obtain out s' where l: "send_loop ?url payload telemetry_type [0..<MAX_RETRIES] s = (out, s')"
    by (cases "send_loop ?url payload telemetry_type [0..<MAX_RETRIES] s")
  then have s': "snd (send_telemetry endpoint payload telemetry_type s) = s'"
    by (simp add: send_telemetry_def split: option.splits)
  from send_loop_posts [OF l]
  obtain X where b: "posts s < posts s'" "posts s' \<le> posts s + 3"
    and x: "events s' = events s @ X"
      "filter is_post X = replicate (posts s' - posts s) (Post ?url headers payload)"
    by (auto simp: MAX_RETRIES_def)
  from b have "1 \<le> posts s' - posts s \<and> posts s' - posts s \<le> 3"
    by arith
  with x show ?thesis
    unfolding s' by (simp add: emitted_append url_base_def headers_def)
qed

section \<open>The main sequence\<close>

lemma send_attempt_result:
  assumes "send_attempt url p t a s = (Some (Inr (b, v)), s')"
  shows "b \<and> (\<exists>r. v = Resp r)"
  using assms
  by (auto simp: send_attempt_def Let_def io_defs split: sum.splits option.splits if_splits)

lemma checked_catchable:
  "catchable outcome \<Longrightarrow> checked outcome = Inl x \<Longrightarrow> caught x"
  by (auto simp: catchable_def checked_def raise_for_status_caught
           split: post_outcome.splits option.splits)

lemma send_attempt_no_raise:
  assumes "catchable (net s (posts s))"
  shows "fst (send_attempt url p t a s) \<noteq> Some (Inl x)"
proof (cases "checked (net s (posts s))")
  case (Inl y)
  with assms have "caught y" by (rule checked_catchable)
  then obtain line where "except_clause url t y = Some line"
    using except_clause_None [of url t y] by (cases "except_clause url t y") auto
  with Inl show ?thesis
    by (simp add: send_attempt_def Let_def io_defs)
next
  case (Inr r)
  then show ?thesis
    by (simp add: send_attempt_def Let_def io_defs)
qed

lemma send_loop_result:
  assumes "send_loop url p t as s = (Some (Inr (b, v)), s')"
  shows "b \<and> (\<exists>r. v = Resp r)"
  using assms
proof (induction as arbitrary: s)
  case Nil
  then show ?case by simp
next
  case (Cons a rest)
  obtain o1 s1 where a1: "send_attempt url p t a s = (o1, s1)"
    by (cases "send_attempt url p t a s")
  show ?case
  proof (cases o1)
    case None
    with Cons.prems a1 have "send_loop url p t rest s1 = (Some (Inr (b, v)), s')" by simp
    then show ?thesis by (rule Cons.IH)
  next
    case (Some w)
    with Cons.prems a1 have "send_attempt url p t a s = (Some (Inr (b, v)), s1)" by simp
    then show ?thesis by (rule send_attempt_result)
  qed
qed

lemma send_loop_no_raise:
  assumes "\<forall>k. catchable (net s k)"
  shows "fst (send_loop url p t as s) \<noteq> Some (Inl x)"
  using assms
proof (induction as arbitrary: s)
  case Nil
  then show ?case by simp
next
  case (Cons a rest)
  obtain o1 s1 where a1: "send_attempt url p t a s = (o1, s1)"
    by (cases "send_attempt url p t a s")
  have n1: "net s1 = net s"
    using send_attempt_frame [OF a1] by simp
  show ?case
  proof (cases o1)
    case None
    from Cons.prems n1 have "\<forall>k. catchable (net s1 k)" by simp
    from Cons.IH [OF this] None a1 show ?thesis by simp
  next
    case (Some w)
    have "fst (send_attempt url p t a s) \<noteq> Some (Inl x)"
      using Cons.prems by (intro send_attempt_no_raise) simp
    with Some a1 show ?thesis by simp
  qed
qed

lemma send_telemetry_frame:
  assumes "send_telemetry ep p t s = (out, s')"
  shows "net s' = net s \<and> success_count s' = success_count s
         \<and> (\<exists>X k. events s' = events s @ X \<and> 1 \<le> k
               \<and> filter is_post X = replicate k (Post (url_base @ ''/'' @ ep) headers p))"
proof -
  let ?url = "url_base @ ''/'' @ ep"
  obtain o1 s1 where l: "send_loop ?url p t [0..<MAX_RETRIES] s = (o1, s1)"
    by (cases "send_loop ?url p t [0..<MAX_RETRIES] s")
  with assms have "s' = s1"
    by (simp add: send_telemetry_def split: option.splits)
  moreover from send_loop_posts [OF l]
  obtain X where "net s1 = net s" "success_count s1 = success_count s" "posts s < posts s1"
      "events s1 = events s @ X"
      "filter is_post X = replicate (posts s1 - posts s) (Post ?url headers p)"
    by (auto simp: MAX_RETRIES_def)
  moreover from this have "1 \<le> posts s1 - posts s" by simp
  ultimately show ?thesis by blast
qed

lemma send_telemetry_result:
  assumes "send_telemetry ep p t s = (Inr (b, v), s')"
  shows "b \<longrightarrow> (\<exists>r. v = Resp r)"
proof -
  let ?url = "url_base @ ''/'' @ ep"
  obtain o1 s1 where l: "send_loop ?url p t [0..<MAX_RETRIES] s = (o1, s1)"
    by (cases "send_loop ?url p t [0..<MAX_RETRIES] s")
  show ?thesis
  proof (cases o1)
    case None
    with assms l show ?thesis by (simp add: send_telemetry_def)
  next
    case (Some w)
    with assms l have "send_loop ?url p t [0..<MAX_RETRIES] s = (Some (Inr (b, v)), s1)"
      by (simp add: send_telemetry_def)
    then show ?thesis using send_loop_result by blast
  qed
qed

lemma send_telemetry_returns:
  assumes "\<forall>k. catchable (net s k)"
  shows "\<exists>sr. fst (send_telemetry ep p t s) = Inr sr"
proof -
  let ?url = "url_base @ ''/'' @ ep"
  obtain o1 s1 where l: "send_loop ?url p t [0..<MAX_RETRIES] s = (o1, s1)"
    by (cases "send_loop ?url p t [0..<MAX_RETRIES] s")
  have nr: "o1 \<noteq> Some (Inl x)" for x
    using send_loop_no_raise [OF assms, of ?url p t "[0..<MAX_RETRIES]" x] l by simp
  show ?thesis
  proof (cases o1)
    case None
    with l show ?thesis by (auto simp: send_telemetry_def)
  next
    case (Some w)
    with nr obtain sr where "w = Inr sr" by (cases w) auto
    with Some l show ?thesis by (simp add: send_telemetry_def)
  qed
qed

lemma report_ok:
  assumes "b \<longrightarrow> (\<exists>r. v = Resp r)"
  shows "\<exists>s2 Y. report label (b, v) s = (Inr (), s2) \<and> net s2 = net s
           \<and> success_count s2 = success_count s + of_bool b
           \<and> events s2 = events s @ Y \<and> filter is_post Y = []"
  using assms by (cases b) (auto simp: report_def Let_def io_defs)

lemma send_and_report:
  obtains (raised) x s1 where "send_telemetry ep p t s = (Inl x, s1)"
  | (reported) b v s1 s2 X k where
      "send_telemetry ep p t s = (Inr (b, v), s1)"
      "report label (b, v) s1 = (Inr (), s2)"
      "net s2 = net s" "success_count s2 = success_count s + of_bool b"
      "events s2 = events s @ X" "1 \<le> k"
      "filter is_post X = replicate k (Post (url_base @ ''/'' @ ep) headers p)"
proof -
  obtain out s1 where st: "send_telemetry ep p t s = (out, s1)"
    by (cases "send_telemetry ep p t s")
  show ?thesis
  proof (cases out)
    case (Inl x)
    with st show ?thesis by (intro raised) simp
  next
    case (Inr sr)
    obtain b v where sr: "sr = (b, v)" by (cases sr)
    from send_telemetry_frame [OF st]
    obtain X k where f: "net s1 = net s" "success_count s1 = success_count s"
        "events s1 = events s @ X" "1 \<le> k"
        "filter is_post X = replicate k (Post (url_base @ ''/'' @ ep) headers p)"
      by blast
    from st Inr sr have "b \<longrightarrow> (\<exists>r. v = Resp r)"
      using send_telemetry_result [of ep p t s b v s1] by simp
    from report_ok [OF this, of label s1]
    obtain s2 Y where r: "report label (b, v) s1 = (Inr (), s2)" "net s2 = net s1"
        "success_count s2 = success_count s1 + of_bool b"
        "events s2 = events s1 @ Y" "filter is_post Y = []"
      by blast
    show ?thesis
    proof (rule reported)
      show "send_telemetry ep p t s = (Inr (b, v), s1)" using st Inr sr by simp
      show "report label (b, v) s1 = (Inr (), s2)" by (rule r(1))
      show "net s2 = net s" using r f by simp
      show "success_count s2 = success_count s + of_bool b" using r f by simp
      show "events s2 = events s @ (X @ Y)" using r f by simp
      show "1 \<le> k" by (rule f(4))
      show "filter is_post (X @ Y) = replicate k (Post (url_base @ ''/'' @ ep) headers p)"
        using r f by simp
    qed
  qed
qed

lemmas stage_defs = logs_send_def logs_done_def metrics_send_def metrics_done_def
  traces_send_def traces_done_def

lemma send_telemetry_raised:
  assumes "send_telemetry ep p t s = (Inl x, s1)" and "net s = network e"
  shows "\<not> (\<forall>k. catchable (network e k))"
proof
  assume "\<forall>k. catchable (network e k)"
  then have "\<forall>k. catchable (net s k)" using assms(2) by simp
  from send_telemetry_returns [OF this, of ep p t] assms(1) show False by simp
qed

lemma run_cases:
  obtains (aborted) x s where
      "traces_done e = (Inl x, s)"
      "\<not> (returned (logs_send e) \<and> returned (metrics_send e) \<and> returned (traces_send e))"
      "\<not> (\<forall>k. catchable (network e k))"
  | (completed) s3 X1 X2 X3 k1 k2 k3 where
      "traces_done e = (Inr (), s3)"
      "returned (logs_send e)" "returned (metrics_send e)" "returned (traces_send e)"
      "success_count s3 = of_bool (succeeded (logs_send e))
         + of_bool (succeeded (metrics_send e)) + of_bool (succeeded (traces_send e))"
      "events s3 = X1 @ X2 @ X3" "1 \<le> k1" "1 \<le> k2" "1 \<le> k3"
      "filter is_post X1 = replicate k1 (Post (url_base @ ''/'' @ ''logs'') headers (logs_payload e))"
      "filter is_post X2
         = replicate k2 (Post (url_base @ ''/'' @ ''metrics'') headers (metrics_payload e))"
      "filter is_post X3
         = replicate k3 (Post (url_base @ ''/'' @ ''traces'') headers (trace_payload e))"
proof -
  have n0: "net (start e) = network e" "success_count (start e) = 0" "events (start e) = []"
    by (simp_all add: start_def)
  show ?thesis
  proof (rule send_and_report [where ep = "''logs''" and p = "logs_payload e" and t = "''logs''"
        and s = "start e" and label = "''Logs''"])
    fix x s1
    assume a: "send_telemetry ''logs'' (logs_payload e) ''logs'' (start e) = (Inl x, s1)"
    show ?thesis
    proof (rule aborted)
      show "traces_done e = (Inl x, s1)" using a by (simp add: stage_defs)
      show "\<not> (returned (logs_send e) \<and> returned (metrics_send e) \<and> returned (traces_send e))"
        using a by (simp add: logs_send_def returned_def)
      show "\<not> (\<forall>k. catchable (network e k))"
        using a n0(1) by (rule send_telemetry_raised)
    qed
  next
    fix b1 v1 s1 t1 X1 k1
    assume l: "send_telemetry ''logs'' (logs_payload e) ''logs'' (start e) = (Inr (b1, v1), s1)"
      "report ''Logs'' (b1, v1) s1 = (Inr (), t1)"
      "net t1 = net (start e)" "success_count t1 = success_count (start e) + of_bool b1"
      "events t1 = events (start e) @ X1" "1 \<le> k1"
      "filter is_post X1 = replicate k1 (Post (url_base @ ''/'' @ ''logs'') headers (logs_payload e))"
    have d1: "logs_send e = (Inr (b1, v1), s1)" "logs_done e = (Inr (), t1)"
      using l(1,2) by (simp_all add: logs_send_def logs_done_def)
    show ?thesis
    proof (rule send_and_report [where ep = "''metrics''" and p = "metrics_payload e"
          and t = "''metrics''" and s = t1 and label = "''Metrics''"])
      fix x s2
      assume a: "send_telemetry ''metrics'' (metrics_payload e) ''metrics'' t1 = (Inl x, s2)"
      have m: "metrics_send e = (Inl x, s2)" using a d1 by (simp add: metrics_send_def)
      show ?thesis
      proof (rule aborted)
        show "traces_done e = (Inl x, s2)"
          using m by (simp add: metrics_done_def traces_send_def traces_done_def)
        show "\<not> (returned (logs_send e) \<and> returned (metrics_send e) \<and> returned (traces_send e))"
          using m by (simp add: returned_def)
        show "\<not> (\<forall>k. catchable (network e k))"
          using a l(3) n0(1) by (intro send_telemetry_raised [of _ _ _ t1]) simp_all
      qed
    next
      fix b2 v2 s2 t2 X2 k2
      assume m: "send_telemetry ''metrics'' (metrics_payload e) ''metrics'' t1 = (Inr (b2, v2), s2)"
        "report ''Metrics'' (b2, v2) s2 = (Inr (), t2)"
        "net t2 = net t1" "success_count t2 = success_count t1 + of_bool b2"
        "events t2 = events t1 @ X2" "1 \<le> k2"
        "filter is_post X2
           = replicate k2 (Post (url_base @ ''/'' @ ''metrics'') headers (metrics_payload e))"
      have d2: "metrics_send e = (Inr (b2, v2), s2)" "metrics_done e = (Inr (), t2)"
        using m(1,2) d1 by (simp_all add: metrics_send_def metrics_done_def)
      show ?thesis
      proof (rule send_and_report [where ep = "''traces''" and p = "trace_payload e"
            and t = "''traces''" and s = t2 and label = "''Traces''"])
        fix x s3
        assume a: "send_telemetry ''traces'' (trace_payload e) ''traces'' t2 = (Inl x, s3)"
        have t: "traces_send e = (Inl x, s3)" using a d2 by (simp add: traces_send_def)
        show ?thesis
        proof (rule aborted)
          show "traces_done e = (Inl x, s3)"
            using t by (simp add: traces_done_def)
          show "\<not> (returned (logs_send e) \<and> returned (metrics_send e)
                   \<and> returned (traces_send e))"
            using t by (simp add: returned_def)
          show "\<not> (\<forall>k. catchable (network e k))"
            using a l(3) m(3) n0(1) by (intro send_telemetry_raised [of _ _ _ t2]) simp_all
        qed
      next
        fix b3 v3 s3 t3 X3 k3
        assume t: "send_telemetry ''traces'' (trace_payload e) ''traces'' t2 = (Inr (b3, v3), s3)"
          "report ''Traces'' (b3, v3) s3 = (Inr (), t3)"
          "net t3 = net t2" "success_count t3 = success_count t2 + of_bool b3"
          "events t3 = events t2 @ X3" "1 \<le> k3"
          "filter is_post X3
             = replicate k3 (Post (url_base @ ''/'' @ ''traces'') headers (trace_payload e))"
        have d3: "traces_send e = (Inr (b3, v3), s3)" "traces_done e = (Inr (), t3)"
          using t(1,2) d2 by (simp_all add: traces_send_def traces_done_def)
        show ?thesis
        proof (rule completed)
          show "traces_done e = (Inr (), t3)" by (rule d3(2))
          show "returned (logs_send e)" using d1 by (simp add: returned_def)
          show "returned (metrics_send e)" using d2 by (simp add: returned_def)
          show "returned (traces_send e)" using d3 by (simp add: returned_def)
          show "success_count t3 = of_bool (succeeded (logs_send e))
                  + of_bool (succeeded (metrics_send e)) + of_bool (succeeded (traces_send e))"
            using d1 d2 d3 l(4) m(4) t(4) n0(2) by (simp add: succeeded_def)
          show "events t3 = X1 @ X2 @ X3" using l(5) m(5) t(5) n0(3) by simp
          show "1 \<le> k1" "1 \<le> k2" "1 \<le> k3" by (rule l(6) m(6) t(6))+
          show "filter is_post X1
                  = replicate k1 (Post (url_base @ ''/'' @ ''logs'') headers (logs_payload e))"
            by (rule l(7))
          show "filter is_post X2
                  = replicate k2 (Post (url_base @ ''/'' @ ''metrics'') headers (metrics_payload e))"
            by (rule m(7))
          show "filter is_post X3
                  = replicate k3 (Post (url_base @ ''/'' @ ''traces'') headers (trace_payload e))"
            by (rule t(7))
        qed
      qed
    qed
  qed
qed

lemma succeeded_returned: "succeeded stage \<Longrightarrow> returned stage"
  by (auto simp: succeeded_def returned_def split: sum.splits)

lemma failed_iff: "failed stage \<longleftrightarrow> returned stage \<and> \<not> succeeded stage"
  by (auto simp: failed_def succeeded_def returned_def split: sum.splits)

lemma finish_status:
  "fst (finish e s) = (if success_count s < 3 then Exit 1 else Exit 0)"
  by (simp add: finish_def Let_def print_def total_operations_def)


lemma finish_exit_code:
  "exit_code (fst (finish e s)) = (if success_count s < 3 then 1 else 0)"
  by (simp add: finish_status exit_code_def)

text \<open>
  Claim C3: the exit code of the process is 0 exactly when all three sends (logs,
  metrics, traces) succeeded, and 1 exactly when at least one of them did not (it
  returned \<^verbatim>\<open>(False, ...)\<close>, or an exception that nothing catches ended the process). In
  terms of \<^verbatim>\<open>sys.exit\<close>: the script calls \<^verbatim>\<open>sys.exit(0)\<close> exactly when all three succeeded,
  and \<^verbatim>\<open>sys.exit(1)\<close> exactly when the three sends returned and at least one failed.
\<close>

theorem exit_code_reflects_sends:
  "(exit_code (fst (main e)) = 0)
     = (succeeded (logs_send e) \<and> succeeded (metrics_send e) \<and> succeeded (traces_send e))
   \<and> (exit_code (fst (main e)) = 1)
     = (\<not> (succeeded (logs_send e) \<and> succeeded (metrics_send e) \<and> succeeded (traces_send e)))
   \<and> (fst (main e) = Exit 0)
     = (succeeded (logs_send e) \<and> succeeded (metrics_send e) \<and> succeeded (traces_send e))
   \<and> (fst (main e) = Exit 1)
     = (returned (logs_send e) \<and> returned (metrics_send e) \<and> returned (traces_send e)
        \<and> (failed (logs_send e) \<or> failed (metrics_send e) \<or> failed (traces_send e)))"
proof (cases rule: run_cases [of e])
  case (aborted x s)
  then show ?thesis
    using succeeded_returned [of "logs_send e"] succeeded_returned [of "metrics_send e"]
      succeeded_returned [of "traces_send e"]
    by (auto simp: main_def exit_code_def)
next
  case (completed s3 X1 X2 X3 k1 k2 k3)
  then have m: "main e = finish e s3"
    by (simp add: main_def)
  have st: "fst (main e) = (if success_count s3 < 3 then Exit 1 else Exit 0)"
    unfolding m by (rule finish_status)
  have ec: "exit_code (fst (main e)) = (if success_count s3 < 3 then 1 else 0)"
    unfolding m by (rule finish_exit_code)
  from st ec completed(2-5) show ?thesis
    by (auto simp: failed_iff)
qed



end
